theory Spec2Isabelle
  imports Main "HOL-Library.Sublist"
begin

section \<open>JavaScript values\<close>

text \<open>
  The route handler of \<^verbatim>\<open>app/api/generate-questions/route.ts\<close> works on untyped
  values: the events of the generation service are read through \<^verbatim>\<open>Object.keys\<close>,
  property access and truthiness tests. The values are modelled as trees. Strings are
  lists of code units below 256. A number is kept as the text that \<^verbatim>\<open>String(n)\<close> gives
  for it (\<^verbatim>\<open>0\<close>, \<^verbatim>\<open>-12\<close>, \<^verbatim>\<open>1e+21\<close>, \<^verbatim>\<open>NaN\<close>, \<^verbatim>\<open>Infinity\<close>), which is all the handler
  can observe of it. An object is the list of its own enumerable properties in the order
  \<^verbatim>\<open>Object.keys\<close> lists them.
\<close>

datatype js =
    JUndefined
  | JNull
  | JBool bool
  | JNum string
  | JStr string
  | JArr "js list"
  | JObj "(string \<times> js) list"

text \<open>What a \<^verbatim>\<open>throw\<close> carries: an instance of \<^verbatim>\<open>Error\<close> with its message, or any
  other value.\<close>

datatype thrown = Error_instance string | Non_error js

text \<open>ToBoolean, as used by \<^verbatim>\<open>!x\<close>, \<^verbatim>\<open>x && y\<close>, \<^verbatim>\<open>x || y\<close> and \<^verbatim>\<open>if (x)\<close>.\<close>

fun truthy :: "js \<Rightarrow> bool" where
  "truthy JUndefined = False"
| "truthy JNull = False"
| "truthy (JBool b) = b"
| "truthy (JNum n) = (n \<noteq> ''0'' \<and> n \<noteq> ''NaN'')"
| "truthy (JStr s) = (s \<noteq> [])"
| "truthy (JArr xs) = True"
| "truthy (JObj kvs) = True"

text \<open>
  \<^verbatim>\<open>x.name\<close> for the names the handler reads (\<^verbatim>\<open>Formatter\<close>, \<^verbatim>\<open>messages\<close>,
  \<^verbatim>\<open>content\<close>, \<^verbatim>\<open>analysisResult\<close>, \<^verbatim>\<open>message\<close>): an own property of an object, and
  \<^verbatim>\<open>undefined\<close> on every other value. Reading a property of \<^verbatim>\<open>null\<close> or
  \<^verbatim>\<open>undefined\<close> raises in JavaScript; the handler guards each such read by a truthiness
  test, and the callers below keep those guards.
\<close>

fun get_prop :: "js \<Rightarrow> string \<Rightarrow> js" where
  "get_prop (JObj kvs) k = (case map_of kvs k of Some v \<Rightarrow> v | None \<Rightarrow> JUndefined)"
| "get_prop v k = JUndefined"

text \<open>\<^verbatim>\<open>x[0]\<close>: the first element of an array, the first code unit of a string, the
  property \<^verbatim>\<open>"0"\<close> of an object.\<close>

fun elem0 :: "js \<Rightarrow> js" where
  "elem0 (JArr xs) = (case xs of [] \<Rightarrow> JUndefined | x # _ \<Rightarrow> x)"
| "elem0 (JStr s) = (case s of [] \<Rightarrow> JUndefined | c # _ \<Rightarrow> JStr [c])"
| "elem0 (JObj kvs) = get_prop (JObj kvs) ''0''"
| "elem0 v = JUndefined"

text \<open>\<^verbatim>\<open>Object.keys(v)[0]\<close>: \<open>None\<close> stands for \<^verbatim>\<open>undefined\<close> (no key). On \<^verbatim>\<open>null\<close> and
  \<^verbatim>\<open>undefined\<close> \<^verbatim>\<open>Object.keys\<close> raises a \<^verbatim>\<open>TypeError\<close>.\<close>

fun first_key :: "js \<Rightarrow> thrown + string option" where
  "first_key JUndefined = Inl (Error_instance ''Cannot convert undefined or null to object'')"
| "first_key JNull = Inl (Error_instance ''Cannot convert undefined or null to object'')"
| "first_key (JObj kvs) = Inr (case kvs of [] \<Rightarrow> None | (k, _) # _ \<Rightarrow> Some k)"
| "first_key (JArr xs) = Inr (if xs = [] then None else Some ''0'')"
| "first_key (JStr s) = Inr (if s = [] then None else Some ''0'')"
| "first_key (JBool b) = Inr None"
| "first_key (JNum n) = Inr None"

section \<open>Strings\<close>

text \<open>Decimal digits of a natural number, as \<^verbatim>\<open>`${n}`\<close> prints an integer below \<open>10\<^sup>2\<^sup>1\<close>.\<close>

fun digits :: "nat \<Rightarrow> string" where
  "digits n =
     (if n < 10 then [''0123456789'' ! n]
      else digits (n div 10) @ [''0123456789'' ! (n mod 10)])"

declare digits.simps [simp del]

text \<open>White space and line terminators that \<^verbatim>\<open>String.prototype.trim\<close> removes, among the
  code units below 256: TAB, LF, VT, FF, CR, SPACE, NBSP.\<close>

definition is_space :: "char \<Rightarrow> bool" where
  "is_space c \<longleftrightarrow> c \<in> {CHR 0x09, CHR 0x0A, CHR 0x0B, CHR 0x0C, CHR 0x0D, CHR 0x20, CHR 0xA0}"

definition trim :: "string \<Rightarrow> string" where
  "trim s = rev (dropWhile is_space (rev (dropWhile is_space s)))"

definition startsWith :: "string \<Rightarrow> string \<Rightarrow> bool" where
  "startsWith s p = prefix p s"

text \<open>\<^verbatim>\<open>s.split(",")\<close>: the segments between the separators; the empty string gives one
  empty segment.\<close>

fun split :: "char \<Rightarrow> string \<Rightarrow> string list" where
  "split sep [] = [[]]"
| "split sep (c # cs) =
     (if c = sep then [] # split sep cs
      else (case split sep cs of [] \<Rightarrow> [[c]] | x # xs \<Rightarrow> (c # x) # xs))"

text \<open>
  \<^verbatim>\<open>.replace(/```(json)?\n/g, "")\<close>: scanning from the left, every occurrence of three
  backticks, an optional \<^verbatim>\<open>json\<close> and a line feed is deleted; the scan goes on after the
  deleted text.
\<close>

definition fence_json :: string where
  "fence_json = ''```json'' @ [CHR 0x0A]"

definition fence_plain :: string where
  "fence_plain = ''```'' @ [CHR 0x0A]"

fun remove_opening_fences :: "string \<Rightarrow> string" where
  "remove_opening_fences [] = []"
| "remove_opening_fences (c # cs) =
     (if prefix fence_json (c # cs) then remove_opening_fences (drop 8 (c # cs))
      else if prefix fence_plain (c # cs) then remove_opening_fences (drop 4 (c # cs))
      else c # remove_opening_fences cs)"

text \<open>\<^verbatim>\<open>.replace(/```$/g, "")\<close>: without the \<^verbatim>\<open>m\<close> flag \<^verbatim>\<open>$\<close> matches at the end of the
  input only, so three backticks are deleted when they are the last three code units.\<close>

definition remove_closing_fence :: "string \<Rightarrow> string" where
  "remove_closing_fence s = (if suffix ''```'' s then take (length s - 3) s else s)"

section \<open>\<^verbatim>\<open>JSON.stringify\<close>\<close>

definition hex_digit :: "nat \<Rightarrow> char" where
  "hex_digit d = ''0123456789abcdef'' ! d"

text \<open>QuoteJSONString: the two-character escapes, \<^verbatim>\<open>\u00xx\<close> for the other control
  characters, every other code unit as it is.\<close>

definition escape_char :: "char \<Rightarrow> string" where
  "escape_char c =
     (if c = CHR 0x22 then [CHR 0x5C, CHR 0x22]
      else if c = CHR 0x5C then [CHR 0x5C, CHR 0x5C]
      else if c = CHR 0x08 then [CHR 0x5C, CHR ''b'']
      else if c = CHR 0x0C then [CHR 0x5C, CHR ''f'']
      else if c = CHR 0x0A then [CHR 0x5C, CHR ''n'']
      else if c = CHR 0x0D then [CHR 0x5C, CHR ''r'']
      else if c = CHR 0x09 then [CHR 0x5C, CHR ''t'']
      else if (of_char c :: nat) < 32
        then [CHR 0x5C, CHR ''u'', CHR ''0'', CHR ''0'',
              hex_digit (of_char c div 16), hex_digit (of_char c mod 16)]
      else [c])"

definition quote :: "string \<Rightarrow> string" where
  "quote s = CHR 0x22 # concat (map escape_char s) @ [CHR 0x22]"

fun join :: "string \<Rightarrow> string list \<Rightarrow> string" where
  "join sep [] = []"
| "join sep [x] = x"
| "join sep (x # y # ys) = x @ sep @ join sep (y # ys)"

text \<open>
  SerializeJSONProperty on the values of the model. A finite number is written as
  \<^verbatim>\<open>String(n)\<close> gives it, any other number as \<^verbatim>\<open>null\<close>. An array element that is
  \<^verbatim>\<open>undefined\<close> is written \<^verbatim>\<open>null\<close>; an object property whose value is \<^verbatim>\<open>undefined\<close>
  is left out. The handler serializes objects only.
\<close>

fun stringify :: "js \<Rightarrow> string"
  and stringify_elements :: "js list \<Rightarrow> string list"
  and stringify_members :: "(string \<times> js) list \<Rightarrow> string list" where
  "stringify JUndefined = ''null''"
| "stringify JNull = ''null''"
| "stringify (JBool b) = (if b then ''true'' else ''false'')"
| "stringify (JNum n) =
     (if n = ''NaN'' \<or> n = ''Infinity'' \<or> n = ''-Infinity'' then ''null'' else n)"
| "stringify (JStr s) = quote s"
| "stringify (JArr xs) = ''['' @ join '','' (stringify_elements xs) @ '']''"
| "stringify (JObj kvs) = ''{'' @ join '','' (stringify_members kvs) @ ''}''"
| "stringify_elements [] = []"
| "stringify_elements (x # xs) = stringify x # stringify_elements xs"
| "stringify_members [] = []"
| "stringify_members ((k, v) # kvs) =
     (if v = JUndefined then stringify_members kvs
      else (quote k @ '':'' @ stringify v) # stringify_members kvs)"

section \<open>The relay of upstream events (\<^verbatim>\<open>GET\<close>, lines 155 to 271)\<close>

text \<open>
  The generation service hands back a lazy sequence. One step of \<^verbatim>\<open>for await\<close> either
  delivers an event or rejects; the sequence is modelled by the finite list of what its
  steps deliver, and the end of the list is the end of the sequence. Nothing after a
  rejection is consumed.
\<close>

datatype upstream_item = Yield js | Raise thrown

text \<open>The writable side of the transform stream: the chunks written so far, in order,
  and whether \<^verbatim>\<open>writer.close()\<close> has been called. Writes are taken to succeed.\<close>

record writer =
  chunks :: "string list"
  closed :: bool

definition writer_write :: "string \<Rightarrow> writer \<Rightarrow> writer" where
  "writer_write chunk w = w\<lparr>chunks := chunks w @ [chunk]\<rparr>"

definition writer_close :: "writer \<Rightarrow> writer" where
  "writer_close w = w\<lparr>closed := True\<rparr>"

definition complete_marker :: string where
  "complete_marker = ''event: complete\<newline>data: done\<newline>\<newline>''"

definition busy_message :: string where
  "busy_message = ''server is busy currently try again later''"

text \<open>\<^verbatim>\<open>`data: ${JSON.stringify(obj)}\n\n`\<close>\<close>

definition sse_data :: "js \<Rightarrow> string" where
  "sse_data obj = ''data: '' @ stringify obj @ ''\<newline>\<newline>''"

definition error_chunk :: "string \<Rightarrow> string" where
  "error_chunk messageToSend =
     sse_data (JObj [(''type'', JStr ''error''), (''content'', JStr messageToSend)])"

definition markdown_chunk :: "string \<Rightarrow> string" where
  "markdown_chunk messageToSend =
     sse_data (JObj [(''type'', JStr ''markdown''), (''content'', JStr messageToSend),
                     (''isMarkdown'', JBool True)])"

text \<open>
  Lines 169 to 196. The condition of the source is a chain of \<^verbatim>\<open>&&\<close>, so a property is
  read only from a value already found truthy. Serializing a value of the model does not
  raise, so the inner \<^verbatim>\<open>catch\<close> (the same fallback) is never entered.
\<close>

definition extract_content :: "string \<Rightarrow> js \<Rightarrow> js" where
  "extract_content agentType event =
     (if truthy (get_prop event agentType) \<and>
         truthy (get_prop (get_prop event agentType) ''messages'') \<and>
         truthy (elem0 (get_prop (get_prop event agentType) ''messages'')) \<and>
         truthy (get_prop (elem0 (get_prop (get_prop event agentType) ''messages'')) ''content'')
      then
        (if truthy (get_prop (get_prop event agentType) ''analysisResult'')
         then get_prop (get_prop event agentType) ''analysisResult''
         else get_prop (elem0 (get_prop (get_prop event agentType) ''messages'')) ''content'')
      else JStr (stringify event))"

text \<open>Lines 199 to 204. The content is whatever the event held; only a string has a
  \<^verbatim>\<open>replace\<close> method, and calling it on another value raises a \<^verbatim>\<open>TypeError\<close>, outside
  the inner \<^verbatim>\<open>try\<close>.\<close>

fun clean_content :: "js \<Rightarrow> thrown + string" where
  "clean_content (JStr content) = Inr (remove_closing_fence (remove_opening_fences content))"
| "clean_content v = Inl (Error_instance ''cleanContent.replace is not a function'')"

definition isJsonContent :: "string \<Rightarrow> bool" where
  "isJsonContent cleanContent \<longleftrightarrow>
     startsWith (trim cleanContent) ''{'' \<or> startsWith (trim cleanContent) ''[''"

text \<open>
  The body of the \<^verbatim>\<open>try\<close> block: the loop over the upstream sequence and the completion
  after it. The result is the value thrown, if any, and the writer as it then is.
\<close>

fun process_stream :: "upstream_item list \<Rightarrow> writer \<Rightarrow> thrown option \<times> writer" where
  "process_stream [] w = (None, writer_close (writer_write complete_marker w))"
| "process_stream (Raise error # rest) w = (Some error, w)"
| "process_stream (Yield event # rest) w =
     (case first_key event of
        Inl error \<Rightarrow> (Some error, w)
      | Inr agentType \<Rightarrow>
          if agentType \<noteq> Some ''Formatter'' then process_stream rest w
          else
            (case clean_content (extract_content ''Formatter'' event) of
               Inl error \<Rightarrow> (Some error, w)
             | Inr cleanContent \<Rightarrow>
                 if isJsonContent cleanContent
                 then (None, writer_close (writer_write complete_marker (writer_write (error_chunk busy_message) w)))
                 else process_stream rest (writer_write (markdown_chunk cleanContent) w)))"

text \<open>Lines 256 to 270, the \<^verbatim>\<open>catch\<close> of the relay.\<close>

fun errorMessage :: "thrown \<Rightarrow> string" where
  "errorMessage (Error_instance message) = message"
| "errorMessage (Non_error v) = ''An unknown error occurred''"

definition error_event :: "thrown \<Rightarrow> string" where
  "error_event error =
     ''event: error\<newline>data: '' @ stringify (JObj [(''error'', JStr (errorMessage error))])
       @ ''\<newline>\<newline>''"

definition relay :: "upstream_item list \<Rightarrow> writer \<Rightarrow> writer" where
  "relay stream w =
     (case process_stream stream w of
        (None, w') \<Rightarrow> w'
      | (Some error, w') \<Rightarrow> writer_close (writer_write (error_event error) w'))"

definition new_writer :: writer where
  "new_writer = \<lparr>chunks = [], closed = False\<rparr>"

section \<open>The platform\<close>

text \<open>
  The handlers reach the file system through the \<^verbatim>\<open>fs\<close> and \<^verbatim>\<open>path\<close> modules of Node.
  These are parameters of the model: the state of the file system is a value of a type
  \<open>'fs\<close>, and a platform gives the working directory (\<^verbatim>\<open>process.cwd()\<close>) and the functions
  the handlers call on paths and on that state. Creating a directory and writing a file
  are taken to succeed; \<^verbatim>\<open>fs.unlinkSync\<close> gives what it throws, if anything, and the state
  it leaves behind.
\<close>

type_synonym bytes = "char list"

record 'fs platform =
  cwd :: string
  path_join :: "string \<Rightarrow> string \<Rightarrow> string"
  existsSync :: "'fs \<Rightarrow> string \<Rightarrow> bool"
  mkdirSync :: "'fs \<Rightarrow> string \<Rightarrow> 'fs"
  writeFileSync :: "'fs \<Rightarrow> string \<Rightarrow> bytes \<Rightarrow> 'fs"
  unlinkSync :: "'fs \<Rightarrow> string \<Rightarrow> thrown option \<times> 'fs"

section \<open>The upload endpoint (\<^verbatim>\<open>POST\<close>)\<close>

datatype response =
    Json_response nat js
  | Event_stream "(string \<times> string) list" writer
  | Unhandled thrown

text \<open>
  \<^verbatim>\<open>NextResponse.json({ message: error.message || fallback }, { status: 500 })\<close> in the
  outer \<^verbatim>\<open>catch\<close> blocks. Reading \<^verbatim>\<open>message\<close> from a thrown \<^verbatim>\<open>null\<close> or \<^verbatim>\<open>undefined\<close>
  raises inside the \<^verbatim>\<open>catch\<close>, which nothing handles.
\<close>

fun catch_response :: "thrown \<Rightarrow> string \<Rightarrow> response" where
  "catch_response (Error_instance message) fallback =
     Json_response 500 (JObj [(''message'', JStr (if message \<noteq> [] then message else fallback))])"
| "catch_response (Non_error JNull) fallback =
     Unhandled (Error_instance ''Cannot read properties of null (reading 'message')'')"
| "catch_response (Non_error JUndefined) fallback =
     Unhandled (Error_instance ''Cannot read properties of undefined (reading 'message')'')"
| "catch_response (Non_error v) fallback =
     Json_response 500
       (JObj [(''message'',
               if truthy (get_prop v ''message'') then get_prop v ''message'' else JStr fallback)])"

text \<open>A value of the multipart form: a file with its name and bytes, or a string.\<close>

datatype form_value = File_value string bytes | Text_value string

text \<open>
  The loop of lines 14 to 37. \<open>extname\<close> is the platform's \<^verbatim>\<open>path.extname\<close>; \<open>clock i\<close> is
  what the \<open>i\<close>-th call of \<^verbatim>\<open>Date.now()\<close> during the request returns, in milliseconds
  since the epoch.
\<close>

fun store_files ::
  "'fs platform \<Rightarrow> (string \<Rightarrow> string) \<Rightarrow> (nat \<Rightarrow> nat) \<Rightarrow> nat \<Rightarrow>
     (string \<times> form_value) list \<Rightarrow> string list \<Rightarrow> 'fs \<Rightarrow> string list \<times> 'fs" where
  "store_files pf extname clock i [] uploadedFiles d = (uploadedFiles, d)"
| "store_files pf extname clock i ((key, File_value name buffer) # entries) uploadedFiles d =
     (if prefix ''file-'' key
      then
        (let tempDir = path_join pf (cwd pf) ''temp'';
             d1 = (if \<not> existsSync pf d tempDir then mkdirSync pf d tempDir else d);
             timestamp = clock i;
             ext = extname name;
             filename = digits timestamp @ ext;
             filePath = path_join pf tempDir filename
         in store_files pf extname clock (Suc i) entries (uploadedFiles @ [filename])
              (writeFileSync pf d1 filePath buffer))
      else store_files pf extname clock i entries uploadedFiles d)"
| "store_files pf extname clock i ((key, Text_value str) # entries) uploadedFiles d =
     store_files pf extname clock i entries uploadedFiles d"

text \<open>\<open>formData\<close> is the outcome of \<^verbatim>\<open>await req.formData()\<close>: the entries in order, or what
  it throws.\<close>

definition POST ::
  "'fs platform \<Rightarrow> (string \<Rightarrow> string) \<Rightarrow> (nat \<Rightarrow> nat) \<Rightarrow>
     thrown + (string \<times> form_value) list \<Rightarrow> 'fs \<Rightarrow> response \<times> 'fs" where
  "POST pf extname clock formData d =
     (case formData of
        Inl error \<Rightarrow> (catch_response error ''Failed to process request'', d)
      | Inr entries \<Rightarrow>
          (case store_files pf extname clock 0 entries [] d of
             (uploadedFiles, d') \<Rightarrow>
               (Json_response 200
                  (JObj [(''message'', JStr ''success''),
                         (''uploadedFiles'', JArr (map JStr uploadedFiles))]), d')))"

section \<open>The generation endpoint (\<^verbatim>\<open>GET\<close>)\<close>

text \<open>\<^verbatim>\<open>url.searchParams.get(name)\<close> gives the value of a query parameter or \<^verbatim>\<open>null\<close>; the
  query is the map from names to values. \<^verbatim>\<open>!p\<close> holds for \<^verbatim>\<open>null\<close> and for the empty
  string.\<close>

definition falsy :: "string option \<Rightarrow> bool" where
  "falsy p \<longleftrightarrow> p = None \<or> p = Some []"

record generation_request =
  questionHeader :: string
  questionDescription :: string
  apiKey :: string
  uploadedFiles :: "string list"
  modelName :: string

definition model_name :: "(string \<rightharpoonup> string) \<Rightarrow> string" where
  "model_name searchParams =
     (if falsy (searchParams ''modelName'') then ''qwen/qwq-32b:free''
      else the (searchParams ''modelName''))"

text \<open>Lines 71 to 84, the body of the answer to a request without its required
  parameters.\<close>

definition missing_parameters_body :: "(string \<rightharpoonup> string) \<Rightarrow> js" where
  "missing_parameters_body searchParams =
     JObj [(''message'', JStr
              ''Missing required parameters. Please provide questionHeader, questionDescription, and apiKey.''),
           (''required'', JArr [JStr ''questionHeader'', JStr ''questionDescription'', JStr ''apiKey'']),
           (''received'', JObj
              [(''questionHeader'', JBool (\<not> falsy (searchParams ''questionHeader''))),
               (''questionDescription'', JBool (\<not> falsy (searchParams ''questionDescription''))),
               (''apiKey'', JBool (\<not> falsy (searchParams ''apiKey''))),
               (''modelName'', JBool (model_name searchParams \<noteq> []))])]"

text \<open>Lines 88 to 93.\<close>

definition parse_uploaded_files :: "string option \<Rightarrow> string list" where
  "parse_uploaded_files uploadedFilesParam =
     (if falsy uploadedFilesParam then []
      else filter (\<lambda>file. trim file \<noteq> []) (split CHR '','' (the uploadedFilesParam)))"

definition files_not_found_body :: js where
  "files_not_found_body =
     JObj [(''message'', JStr ''Uploaded files not found on server. Please try uploading again.'')]"

text \<open>The argument of \<^verbatim>\<open>generateQuestions\<close>, lines 126 to 132; it is built only after
  the three required parameters were found truthy.\<close>

definition make_request :: "(string \<rightharpoonup> string) \<Rightarrow> string list \<Rightarrow> generation_request" where
  "make_request searchParams files =
     \<lparr>questionHeader = the (searchParams ''questionHeader''),
      questionDescription = the (searchParams ''questionDescription''),
      apiKey = the (searchParams ''apiKey''),
      uploadedFiles = files,
      modelName = model_name searchParams\<rparr>"

text \<open>Lines 62 to 123: the early answers, or the request passed on to the generation
  service. A declared file exists when \<^verbatim>\<open>fs.existsSync(path.join(tempDir, file))\<close> says
  so.\<close>

definition validate ::
  "'fs platform \<Rightarrow> 'fs \<Rightarrow> (string \<rightharpoonup> string) \<Rightarrow> response + generation_request" where
  "validate pf d searchParams =
     (if falsy (searchParams ''questionHeader'') \<or> falsy (searchParams ''questionDescription'')
         \<or> falsy (searchParams ''apiKey'')
      then Inl (Json_response 400 (missing_parameters_body searchParams))
      else
        (let uploaded = parse_uploaded_files (searchParams ''uploadedFiles'')
         in if length uploaded = 0 then Inr (make_request searchParams uploaded)
            else
              (let tempDir = path_join pf (cwd pf) ''temp'';
                   existingFiles =
                     filter (\<lambda>file. existsSync pf d (path_join pf tempDir file)) uploaded
               in if length existingFiles = 0 \<and> length uploaded > 0
                  then Inl (Json_response 400 files_not_found_body)
                  else Inr (make_request searchParams existingFiles))))"

text \<open>Lines 135 to 146: each file of the request is unlinked if its path still exists;
  what an unlink throws is caught and logged, and the loop goes on.\<close>

fun delete_files :: "'fs platform \<Rightarrow> string list \<Rightarrow> 'fs \<Rightarrow> 'fs" where
  "delete_files pf [] d = d"
| "delete_files pf (file # files) d =
     delete_files pf files
       (let tempDir = path_join pf (cwd pf) ''temp'';
            filePath = path_join pf tempDir file
        in if existsSync pf d filePath then snd (unlinkSync pf d filePath) else d)"

definition sse_headers :: "(string \<times> string) list" where
  "sse_headers =
     [(''Content-Type'', ''text/event-stream''), (''Cache-Control'', ''no-cache''),
      (''Connection'', ''keep-alive'')]"

text \<open>
  Lines 125 to 293. \<open>generateQuestions\<close> is the external service: it throws, or gives a
  result whose \<^verbatim>\<open>stream\<close> is the upstream sequence (\<open>Some\<close>) or missing (\<open>None\<close>). The
  answer of the streaming case carries everything the relay writes.
\<close>

definition generate ::
  "'fs platform \<Rightarrow> (generation_request \<Rightarrow> 'fs \<Rightarrow> thrown + upstream_item list option) \<Rightarrow>
     generation_request \<Rightarrow> 'fs \<Rightarrow> response \<times> 'fs" where
  "generate pf generateQuestions request d =
     (case generateQuestions request d of
        Inl error \<Rightarrow> (catch_response error ''Failed to generate questions'', d)
      | Inr result \<Rightarrow>
          (case result of
             Some stream \<Rightarrow>
               (Event_stream sse_headers (relay stream new_writer),
                delete_files pf (uploadedFiles request) d)
           | None \<Rightarrow>
               (Json_response 500
                  (JObj [(''message'', JStr ''No stream returned from generation service'')]),
                delete_files pf (uploadedFiles request) d)))"

definition GET ::
  "'fs platform \<Rightarrow> (generation_request \<Rightarrow> 'fs \<Rightarrow> thrown + upstream_item list option) \<Rightarrow>
     'fs \<Rightarrow> (string \<rightharpoonup> string) \<Rightarrow> response \<times> 'fs" where
  "GET pf generateQuestions d searchParams =
     (case validate pf d searchParams of
        Inl early \<Rightarrow> (early, d)
      | Inr request \<Rightarrow> generate pf generateQuestions request d)"

section \<open>Notions used to state the properties\<close>

text \<open>The agent filter of lines 161 to 167 lets an event pass, or skips it.\<close>

definition is_formatter :: "js \<Rightarrow> bool" where
  "is_formatter event \<longleftrightarrow> first_key event = Inr (Some ''Formatter'')"

definition other_agent :: "js \<Rightarrow> bool" where
  "other_agent event \<longleftrightarrow>
     (case first_key event of Inl error \<Rightarrow> False | Inr agentType \<Rightarrow> agentType \<noteq> Some ''Formatter'')"

text \<open>The text of the markdown message an event leads to: its cleaned content, when the
  content is a string that is not classified as JSON.\<close>

definition markdown_text :: "js \<Rightarrow> string option" where
  "markdown_text event =
     (case clean_content (extract_content ''Formatter'' event) of
        Inl error \<Rightarrow> None
      | Inr cleanContent \<Rightarrow> if isJsonContent cleanContent then None else Some cleanContent)"

text \<open>The parameters that the \<^verbatim>\<open>received\<close> object of a response body flags \<^verbatim>\<open>false\<close>.\<close>

definition not_received :: "js \<Rightarrow> string list" where
  "not_received body =
     (case get_prop body ''received'' of
        JObj flags \<Rightarrow> map fst (filter (\<lambda>(name, flag). flag = JBool False) flags)
      | _ \<Rightarrow> [])"

text \<open>The original names of the form entries that the upload loop stores, in order.\<close>

fun stored_names :: "(string \<times> form_value) list \<Rightarrow> string list" where
  "stored_names [] = []"
| "stored_names ((key, File_value name buffer) # entries) =
     (if prefix ''file-'' key then name # stored_names entries else stored_names entries)"
| "stored_names ((key, Text_value str) # entries) = stored_names entries"

text \<open>The regular expression \<^verbatim>\<open>^\d+\.pdf$\<close>.\<close>

definition is_digit :: "char \<Rightarrow> bool" where
  "is_digit c \<longleftrightarrow> c \<in> set ''0123456789''"

definition matches_digits_pdf :: "string \<Rightarrow> bool" where
  "matches_digits_pdf s \<longleftrightarrow>
     takeWhile is_digit s \<noteq> [] \<and> dropWhile is_digit s = ''.pdf''"

text \<open>
  A platform for the examples: the file system holds regular files by path, and two paths
  are joined by a slash, as \<^verbatim>\<open>path.join\<close> does for an absolute directory and a plain
  name.
\<close>

type_synonym disk = "string \<rightharpoonup> bytes"

definition example_platform :: "disk platform" where
  "example_platform =
     \<lparr>cwd = ''/app'',
      path_join = (\<lambda>a b. a @ ''/'' @ b),
      existsSync = (\<lambda>d p. d p \<noteq> None),
      mkdirSync = (\<lambda>d p. d),
      writeFileSync = (\<lambda>d p buffer. d(p \<mapsto> buffer)),
      unlinkSync = (\<lambda>d p. (None, d(p := None)))\<rparr>"

text \<open>An event of one agent that holds one message, as used in the examples below.\<close>

definition agent_event :: "string \<Rightarrow> string \<Rightarrow> js" where
  "agent_event agent content =
     JObj [(agent, JObj [(''messages'', JArr [JObj [(''content'', JStr content)]])])]"

section \<open>Properties of the relay\<close>

lemma process_stream_prefix:
  "\<exists>ys. chunks (snd (process_stream stream w)) = chunks w @ ys"
proof (induction stream arbitrary: w)
  case Nil
  show ?case by (simp add: writer_write_def writer_close_def)
next
  case (Cons item rest)
  show ?case
  proof (cases item)
    case (Raise error)
    then show ?thesis by simp
  next
    case (Yield event)
    have step: "\<exists>ys. chunks (snd (process_stream rest (writer_write c w))) = chunks w @ ys" for c
      using Cons.IH [of "writer_write c w"] by (auto simp: writer_write_def)
    show ?thesis
      using Yield Cons.IH [of w] step
      by (simp add: writer_write_def writer_close_def split: sum.splits)
  qed
qed

lemma relay_prefix: "\<exists>ys. chunks (relay stream w) = chunks w @ ys"
proof (cases "process_stream stream w")
  case (Pair r w')
  with process_stream_prefix [of stream w] show ?thesis
    by (cases r) (auto simp: relay_def writer_write_def writer_close_def)
qed

lemma first_key_formatter_object:
  "first_key event = Inr (Some ''Formatter'') \<Longrightarrow> \<exists>kvs. event = JObj kvs"
  by (cases event) (simp_all split: if_splits)

lemma remove_opening_fences_head:
  "c \<noteq> CHR 0x60 \<Longrightarrow> remove_opening_fences (c # cs) = c # remove_opening_fences cs"
  by (simp add: fence_json_def fence_plain_def)

lemma remove_closing_fence_head:
  assumes "c \<noteq> CHR 0x60"
  shows "\<exists>r. remove_closing_fence (c # cs) = c # r"
proof (cases "suffix ''```'' (c # cs)")
  case False
  then show ?thesis by (simp add: remove_closing_fence_def)
next
  case True
  then obtain zs where zs: "c # cs = zs @ ''```''" by (auto simp: suffix_def)
  with assms obtain zs' where "zs = c # zs'" by (cases zs) auto
  with zs True show ?thesis by (simp add: remove_closing_fence_def)
qed

lemma trim_head:
  assumes "\<not> is_space c"
  shows "\<exists>r. trim (c # cs) = c # r"
proof -
  from assms have "trim (c # cs) = rev (dropWhile is_space (rev cs @ [c]))"
    by (simp add: trim_def)
  also have "\<dots> = c # rev (if \<forall>x \<in> set cs. is_space x then [] else dropWhile is_space (rev cs))"
    using assms by (simp add: dropWhile_append)
  finally show ?thesis by blast
qed

lemma brace_is_json:
  "isJsonContent (remove_closing_fence (remove_opening_fences (CHR ''{'' # s)))"
proof -
  have "remove_opening_fences (CHR ''{'' # s) = CHR ''{'' # remove_opening_fences s"
    by (rule remove_opening_fences_head) simp
  moreover obtain r where
    "remove_closing_fence (CHR ''{'' # remove_opening_fences s) = CHR ''{'' # r"
    using remove_closing_fence_head [of "CHR ''{''" "remove_opening_fences s"] by auto
  moreover obtain r' where "trim (CHR ''{'' # r) = CHR ''{'' # r'"
    using trim_head [of "CHR ''{''" r] by (auto simp: is_space_def)
  ultimately show ?thesis
    by (simp add: isJsonContent_def startsWith_def)
qed

lemma serialized_event_is_json:
  assumes "first_key event = Inr (Some ''Formatter'')"
  shows "isJsonContent (remove_closing_fence (remove_opening_fences (stringify event)))"
proof -
  from assms obtain kvs where "event = JObj kvs"
    using first_key_formatter_object by blast
  then have "stringify event = CHR ''{'' # (join '','' (stringify_members kvs) @ ''}'')"
    by simp
  then show ?thesis by (simp only: brace_is_json)
qed

lemma truthy_get_prop: "truthy (get_prop v k) \<Longrightarrow> truthy v"
  by (cases v) simp_all

lemma truthy_elem0: "truthy (elem0 v) \<Longrightarrow> truthy v"
  by (cases v) (simp_all split: list.splits)

lemma process_stream_markdown:
  assumes "\<forall>event \<in> set events. other_agent event \<or> (is_formatter event \<and> markdown_text event \<noteq> None)"
  shows "process_stream (map Yield events) w =
           (None, w\<lparr>chunks := chunks w @
                       map (\<lambda>event. markdown_chunk (the (markdown_text event)))
                         (filter is_formatter events) @ [complete_marker],
                     closed := True\<rparr>)"
  using assms
proof (induction events arbitrary: w)
  case Nil
  show ?case by (simp add: writer_write_def writer_close_def)
next
  case (Cons event events)
  from Cons.prems have rest: "\<forall>e \<in> set events. other_agent e \<or> (is_formatter e \<and> markdown_text e \<noteq> None)"
    by simp
  from Cons.prems consider (other) "other_agent event"
    | (fmt) "is_formatter event" "markdown_text event \<noteq> None"
    by auto
  then show ?case
  proof cases
    case other
    then obtain agentType where k: "first_key event = Inr agentType" "agentType \<noteq> Some ''Formatter''"
      by (auto simp: other_agent_def split: sum.splits)
    then have "\<not> is_formatter event" by (simp add: is_formatter_def)
    with k Cons.IH [OF rest, of w] show ?thesis by simp
  next
    case fmt
    then obtain c where c: "clean_content (extract_content ''Formatter'' event) = Inr c"
        "\<not> isJsonContent c" "markdown_text event = Some c"
      by (auto simp: markdown_text_def split: sum.splits if_splits)
    from fmt(1) have k: "first_key event = Inr (Some ''Formatter'')"
      by (simp add: is_formatter_def)
    show ?thesis
      using k c fmt(1) Cons.IH [OF rest, of "writer_write (markdown_chunk c) w"]
      by (simp add: writer_write_def)
  qed
qed

text \<open>
  Claim C1. When an event of agent \<^verbatim>\<open>Formatter\<close> has a string content that, after the
  fences are removed, starts with \<^verbatim>\<open>{\<close> or \<^verbatim>\<open>[\<close> behind optional white space, the relay
  writes one error message with the text \<^verbatim>\<open>server is busy currently try again later\<close>,
  then the completion marker, closes the stream, and consumes nothing of what remains of
  the upstream sequence: the outcome is the same for every remainder \<open>rest\<close>.
\<close>

theorem json_content_short_circuit:
  assumes "first_key event = Inr (Some ''Formatter'')"
    and "extract_content ''Formatter'' event = JStr content"
    and "isJsonContent (remove_closing_fence (remove_opening_fences content))"
  shows \<open>relay (Yield event # rest) w =
           w\<lparr>chunks := chunks w @
                 [''data: {"type":"error","content":"server is busy currently try again later"}\<newline>\<newline>'',
                  ''event: complete\<newline>data: done\<newline>\<newline>''],
               closed := True\<rparr> \<and>
         relay (Yield event # rest) w = relay [Yield event] w\<close>
proof -
  have busy: \<open>error_chunk busy_message =
      ''data: {"type":"error","content":"server is busy currently try again later"}\<newline>\<newline>''\<close>
    by code_simp
  have marker: \<open>complete_marker = ''event: complete\<newline>data: done\<newline>\<newline>''\<close>
    by (simp add: complete_marker_def)
  have r: "relay (Yield event # items) w =
      w\<lparr>chunks := chunks w @ [error_chunk busy_message, complete_marker], closed := True\<rparr>"
    for items
    using assms by (simp add: relay_def writer_write_def writer_close_def)
  from r [of rest] r [of "[]"] show ?thesis
    by (simp only: busy marker)
qed

theorem json_content_short_circuit_witness:
  \<open>first_key (agent_event ''Formatter'' ''```json\<newline>{"x":1}\<newline>```'') = Inr (Some ''Formatter'') \<and>
   extract_content ''Formatter'' (agent_event ''Formatter'' ''```json\<newline>{"x":1}\<newline>```'') = JStr ''```json\<newline>{"x":1}\<newline>```'' \<and>
   isJsonContent (remove_closing_fence (remove_opening_fences ''```json\<newline>{"x":1}\<newline>```'')) \<and>
   relay [Yield (agent_event ''Formatter'' ''```json\<newline>{"x":1}\<newline>```''), Yield (agent_event ''Formatter'' ''Q2'')]
       new_writer =
     \<lparr>chunks = [''data: {"type":"error","content":"server is busy currently try again later"}\<newline>\<newline>'',
                ''event: complete\<newline>data: done\<newline>\<newline>''],
      closed = True\<rparr>\<close>
proof -
  let ?event = \<open>agent_event ''Formatter'' ''```json\<newline>{"x":1}\<newline>```''\<close>
  have h1: "first_key ?event = Inr (Some ''Formatter'')"
    by code_simp
  have h2: \<open>extract_content ''Formatter'' ?event = JStr ''```json\<newline>{"x":1}\<newline>```''\<close>
    by code_simp
  have h3: \<open>isJsonContent (remove_closing_fence (remove_opening_fences ''```json\<newline>{"x":1}\<newline>```''))\<close>
    by code_simp
  from json_content_short_circuit [OF h1 h2 h3, of "[Yield (agent_event ''Formatter'' ''Q2'')]" new_writer]
  have \<open>relay [Yield ?event, Yield (agent_event ''Formatter'' ''Q2'')] new_writer =
     new_writer\<lparr>chunks := chunks new_writer @
         [''data: {"type":"error","content":"server is busy currently try again later"}\<newline>\<newline>'',
          ''event: complete\<newline>data: done\<newline>\<newline>''],
       closed := True\<rparr>\<close>
    by (rule conjunct1)
  then have \<open>relay [Yield ?event, Yield (agent_event ''Formatter'' ''Q2'')] new_writer =
     \<lparr>chunks = [''data: {"type":"error","content":"server is busy currently try again later"}\<newline>\<newline>'',
                ''event: complete\<newline>data: done\<newline>\<newline>''],
      closed = True\<rparr>\<close>
    by (simp add: new_writer_def)
  with h1 h2 h3 show ?thesis by (intro conjI)
qed

text \<open>
  Claim C5. An event whose first key is not \<^verbatim>\<open>Formatter\<close> (or that has no key at all) is
  skipped: the loop goes on with the next upstream item from the same writer state, so the
  event adds no message and changes nothing.
\<close>

theorem other_agent_skipped:
  assumes "first_key event = Inr agentType" and "agentType \<noteq> Some ''Formatter''"
  shows "process_stream (Yield event # rest) w = process_stream rest w \<and>
         relay (Yield event # rest) w = relay rest w"
  using assms by (simp add: relay_def)

theorem other_agent_skipped_witness:
  \<open>first_key (agent_event ''Researcher'' ''notes'') = Inr (Some ''Researcher'') \<and>
   Some ''Researcher'' \<noteq> Some ''Formatter'' \<and>
   process_stream [Yield (agent_event ''Researcher'' ''notes''), Yield (agent_event ''Formatter'' ''Q1'')]
       new_writer =
     process_stream [Yield (agent_event ''Formatter'' ''Q1'')] new_writer \<and>
   relay [Yield (agent_event ''Researcher'' ''notes''), Yield (agent_event ''Formatter'' ''Q1'')]
       new_writer =
     relay [Yield (agent_event ''Formatter'' ''Q1'')] new_writer\<close>
proof -
  have h1: "first_key (agent_event ''Researcher'' ''notes'') = Inr (Some ''Researcher'')"
    by code_simp
  have h2: "Some ''Researcher'' \<noteq> Some ''Formatter''"
    by simp
  from other_agent_skipped [OF h1 h2, of "[Yield (agent_event ''Formatter'' ''Q1'')]" new_writer]
    h1 h2
  show ?thesis by (intro conjI) simp_all
qed

text \<open>
  Claim C6. For a finite upstream sequence whose events either belong to another agent or
  are \<^verbatim>\<open>Formatter\<close> events with a string content not classified as JSON, the relay writes
  one markdown message per \<^verbatim>\<open>Formatter\<close> event, carrying its cleaned text, in the order
  of the upstream events, then the completion marker, and closes.
\<close>

theorem markdown_relay_in_order:
  assumes "\<forall>event \<in> set events. other_agent event \<or> (is_formatter event \<and> markdown_text event \<noteq> None)"
  shows "relay (map Yield events) w =
           w\<lparr>chunks := chunks w @
                 map (\<lambda>event. markdown_chunk (the (markdown_text event)))
                   (filter is_formatter events) @ [complete_marker],
               closed := True\<rparr>"
  by (simp add: relay_def process_stream_markdown [OF assms])

theorem markdown_relay_in_order_witness:
  \<open>is_formatter (agent_event ''Formatter'' ''Q1'') \<and>
   markdown_text (agent_event ''Formatter'' ''Q1'') = Some ''Q1'' \<and>
   other_agent (agent_event ''Planner'' ''plan'') \<and>
   is_formatter (agent_event ''Formatter'' ''Q2'') \<and>
   markdown_text (agent_event ''Formatter'' ''Q2'') = Some ''Q2'' \<and>
   relay (map Yield [agent_event ''Formatter'' ''Q1'', agent_event ''Planner'' ''plan'',
                     agent_event ''Formatter'' ''Q2'']) new_writer =
     \<lparr>chunks = [''data: {"type":"markdown","content":"Q1","isMarkdown":true}\<newline>\<newline>'',
                ''data: {"type":"markdown","content":"Q2","isMarkdown":true}\<newline>\<newline>'',
                ''event: complete\<newline>data: done\<newline>\<newline>''],
      closed = True\<rparr>\<close>
proof -
  have h: "\<forall>event \<in> set [agent_event ''Formatter'' ''Q1'', agent_event ''Planner'' ''plan'',
                      agent_event ''Formatter'' ''Q2''].
      other_agent event \<or> (is_formatter event \<and> markdown_text event \<noteq> None)"
    by code_simp
  have lit: \<open>new_writer\<lparr>chunks := chunks new_writer @
                 map (\<lambda>event. markdown_chunk (the (markdown_text event)))
                   (filter is_formatter [agent_event ''Formatter'' ''Q1'',
                      agent_event ''Planner'' ''plan'', agent_event ''Formatter'' ''Q2'']) @
                 [complete_marker],
               closed := True\<rparr> =
     \<lparr>chunks = [''data: {"type":"markdown","content":"Q1","isMarkdown":true}\<newline>\<newline>'',
                ''data: {"type":"markdown","content":"Q2","isMarkdown":true}\<newline>\<newline>'',
                ''event: complete\<newline>data: done\<newline>\<newline>''],
      closed = True\<rparr>\<close>
    by code_simp
  from markdown_relay_in_order [OF h, of new_writer]
  have \<open>relay (map Yield [agent_event ''Formatter'' ''Q1'', agent_event ''Planner'' ''plan'',
                     agent_event ''Formatter'' ''Q2'']) new_writer =
     \<lparr>chunks = [''data: {"type":"markdown","content":"Q1","isMarkdown":true}\<newline>\<newline>'',
                ''data: {"type":"markdown","content":"Q2","isMarkdown":true}\<newline>\<newline>'',
                ''event: complete\<newline>data: done\<newline>\<newline>''],
      closed = True\<rparr>\<close>
    by (simp only: lit)
  moreover have "is_formatter (agent_event ''Formatter'' ''Q1'')"
    and "markdown_text (agent_event ''Formatter'' ''Q1'') = Some ''Q1''"
    and "other_agent (agent_event ''Planner'' ''plan'')"
    and "is_formatter (agent_event ''Formatter'' ''Q2'')"
    and "markdown_text (agent_event ''Formatter'' ''Q2'') = Some ''Q2''"
    by code_simp+
  ultimately show ?thesis by (intro conjI)
qed

text \<open>
  Claim C2. After an exception during the consumption of the upstream sequence the relay
  is to write one error message with the description of the error, or a generic text, and
  then the completion marker that ends a normal stream. At the upstream sequence that
  rejects at once with \<^verbatim>\<open>new Error("boom")\<close> the relay writes the one frame
  \<^verbatim>\<open>event: error\<close> with that message and closes; when the value thrown is not an
  \<^verbatim>\<open>Error\<close> the frame carries \<^verbatim>\<open>An unknown error occurred\<close>. In both runs the completion
  marker is missing, while the end of the sequence writes it before closing.
\<close>

theorem relay_exception_omits_marker:
  \<open>complete_marker = ''event: complete\<newline>data: done\<newline>\<newline>'' \<and>
   relay [Raise (Error_instance ''boom'')] new_writer =
     \<lparr>chunks = [''event: error\<newline>data: {"error":"boom"}\<newline>\<newline>''], closed = True\<rparr> \<and>
   complete_marker \<notin> set (chunks (relay [Raise (Error_instance ''boom'')] new_writer)) \<and>
   relay [Raise (Non_error (JStr ''boom''))] new_writer =
     \<lparr>chunks = [''event: error\<newline>data: {"error":"An unknown error occurred"}\<newline>\<newline>''], closed = True\<rparr> \<and>
   complete_marker \<notin> set (chunks (relay [Raise (Non_error (JStr ''boom''))] new_writer)) \<and>
   relay [] new_writer = \<lparr>chunks = [''event: complete\<newline>data: done\<newline>\<newline>''], closed = True\<rparr>\<close>
  by code_simp

text \<open>
  Claim C3, as stated: the content of an event that passed the agent filter is its
  \<^verbatim>\<open>analysisResult\<close> whenever that field is present. An event with an
  \<^verbatim>\<open>analysisResult\<close> and no message is serialized whole instead.
\<close>

theorem extract_content_counterexample:
  \<open>first_key (JObj [(''Formatter'', JObj [(''analysisResult'', JStr ''R'')])]) =
     Inr (Some ''Formatter'') \<and>
   get_prop (get_prop (JObj [(''Formatter'', JObj [(''analysisResult'', JStr ''R'')])]) ''Formatter'')
     ''analysisResult'' = JStr ''R'' \<and>
   extract_content ''Formatter'' (JObj [(''Formatter'', JObj [(''analysisResult'', JStr ''R'')])]) =
     JStr ''{"Formatter":{"analysisResult":"R"}}'' \<and>
   extract_content ''Formatter'' (JObj [(''Formatter'', JObj [(''analysisResult'', JStr ''R'')])]) \<noteq>
     JStr ''R''\<close>
  by code_simp

text \<open>
  Claim C3, amended. The \<^verbatim>\<open>analysisResult\<close> is consulted only inside the branch of the
  standard message structure: when the content of the first message is truthy, the
  extracted content is the \<^verbatim>\<open>analysisResult\<close> if that is truthy too, and the content of the
  first message otherwise; in every other case, also when an \<^verbatim>\<open>analysisResult\<close> is
  present, the whole event is serialized. An event that passed the agent filter is never
  silently swallowed: directly after what was written before it, the relay writes the
  message this event leads to, which is the markdown message of its cleaned content, the
  busy error message when the cleaned content is classified as JSON, or the error frame
  when the content is not a string. The serialized event is always classified as JSON, so
  an event that falls back to it ends the stream with the busy error message.
\<close>

theorem extract_content_cases:
  "extract_content ''Formatter'' event =
     (if truthy (get_prop (elem0 (get_prop (get_prop event ''Formatter'') ''messages'')) ''content'')
      then
        (if truthy (get_prop (get_prop event ''Formatter'') ''analysisResult'')
         then get_prop (get_prop event ''Formatter'') ''analysisResult''
         else get_prop (elem0 (get_prop (get_prop event ''Formatter'') ''messages'')) ''content'')
      else JStr (stringify event)) \<and>
   (first_key event = Inr (Some ''Formatter'') \<longrightarrow>
      take (Suc (length (chunks w))) (chunks (relay (Yield event # rest) w)) =
        chunks w @
          [case clean_content (extract_content ''Formatter'' event) of
             Inl error \<Rightarrow> error_event error
           | Inr cleanContent \<Rightarrow>
               if isJsonContent cleanContent then error_chunk busy_message
               else markdown_chunk cleanContent]) \<and>
   (first_key event = Inr (Some ''Formatter'') \<longrightarrow>
    \<not> truthy (get_prop (elem0 (get_prop (get_prop event ''Formatter'') ''messages'')) ''content'') \<longrightarrow>
      relay (Yield event # rest) w =
        w\<lparr>chunks := chunks w @ [error_chunk busy_message, complete_marker], closed := True\<rparr>)"
proof (intro conjI impI)
  show x: "extract_content ''Formatter'' event =
     (if truthy (get_prop (elem0 (get_prop (get_prop event ''Formatter'') ''messages'')) ''content'')
      then
        (if truthy (get_prop (get_prop event ''Formatter'') ''analysisResult'')
         then get_prop (get_prop event ''Formatter'') ''analysisResult''
         else get_prop (elem0 (get_prop (get_prop event ''Formatter'') ''messages'')) ''content'')
      else JStr (stringify event))"
  proof (cases "truthy (get_prop (elem0 (get_prop (get_prop event ''Formatter'') ''messages'')) ''content'')")
    case True
    then have m0: "truthy (elem0 (get_prop (get_prop event ''Formatter'') ''messages''))"
      by (rule truthy_get_prop)
    then have ms: "truthy (get_prop (get_prop event ''Formatter'') ''messages'')"
      by (rule truthy_elem0)
    then have a: "truthy (get_prop event ''Formatter'')"
      by (rule truthy_get_prop)
    from True m0 ms a show ?thesis by (simp add: extract_content_def)
  next
    case False
    then show ?thesis by (simp add: extract_content_def)
  qed
  {
    assume k: "first_key event = Inr (Some ''Formatter'')"
    show "take (Suc (length (chunks w))) (chunks (relay (Yield event # rest) w)) =
        chunks w @
          [case clean_content (extract_content ''Formatter'' event) of
             Inl error \<Rightarrow> error_event error
           | Inr cleanContent \<Rightarrow>
               if isJsonContent cleanContent then error_chunk busy_message
               else markdown_chunk cleanContent]"
    proof (cases "clean_content (extract_content ''Formatter'' event)")
      case (Inl error)
      with k show ?thesis by (simp add: relay_def writer_write_def writer_close_def)
    next
      case (Inr c)
      show ?thesis
      proof (cases "isJsonContent c")
        case True
        with k Inr show ?thesis by (simp add: relay_def writer_write_def writer_close_def)
      next
        case False
        with k Inr have "relay (Yield event # rest) w = relay rest (writer_write (markdown_chunk c) w)"
          by (simp add: relay_def)
        moreover obtain ys where
          "chunks (relay rest (writer_write (markdown_chunk c) w)) =
             chunks (writer_write (markdown_chunk c) w) @ ys"
          using relay_prefix by blast
        ultimately show ?thesis
          using Inr False by (simp add: writer_write_def)
      qed
    qed
  }
  {
    assume k: "first_key event = Inr (Some ''Formatter'')"
      and f: "\<not> truthy (get_prop (elem0 (get_prop (get_prop event ''Formatter'') ''messages'')) ''content'')"
    from f x have "extract_content ''Formatter'' event = JStr (stringify event)"
      by simp
    with k serialized_event_is_json [OF k]
    show "relay (Yield event # rest) w =
        w\<lparr>chunks := chunks w @ [error_chunk busy_message, complete_marker], closed := True\<rparr>"
      by (simp add: relay_def writer_write_def writer_close_def)
  }
qed

theorem extract_content_cases_witness:
  \<open>first_key (JObj [(''Formatter'', JObj [(''messages'', JArr [JObj [(''content'', JStr ''Q1'')]]),
                                         (''analysisResult'', JStr ''R'')])]) =
     Inr (Some ''Formatter'') \<and>
   extract_content ''Formatter''
     (JObj [(''Formatter'', JObj [(''messages'', JArr [JObj [(''content'', JStr ''Q1'')]]),
                                 (''analysisResult'', JStr ''R'')])]) = JStr ''R'' \<and>
   take (Suc (length (chunks new_writer)))
     (chunks (relay
       [Yield (JObj [(''Formatter'', JObj [(''messages'', JArr [JObj [(''content'', JStr ''Q1'')]]),
                                          (''analysisResult'', JStr ''R'')])]),
        Yield (agent_event ''Formatter'' ''Q2'')] new_writer)) =
     chunks new_writer @ [''data: {"type":"markdown","content":"R","isMarkdown":true}\<newline>\<newline>''] \<and>
   first_key (JObj [(''Formatter'', JObj [(''analysisResult'', JStr ''R'')])]) =
     Inr (Some ''Formatter'') \<and>
   \<not> truthy (get_prop (elem0 (get_prop (get_prop
        (JObj [(''Formatter'', JObj [(''analysisResult'', JStr ''R'')])]) ''Formatter'')
        ''messages'')) ''content'') \<and>
   relay [Yield (JObj [(''Formatter'', JObj [(''analysisResult'', JStr ''R'')])]),
          Yield (agent_event ''Formatter'' ''Q2'')] new_writer =
     \<lparr>chunks = [''data: {"type":"error","content":"server is busy currently try again later"}\<newline>\<newline>'',
                ''event: complete\<newline>data: done\<newline>\<newline>''],
      closed = True\<rparr>\<close>
proof -
  let ?event = "JObj [(''Formatter'', JObj [(''messages'', JArr [JObj [(''content'', JStr ''Q1'')]]),
                                          (''analysisResult'', JStr ''R'')])]"
  let ?fallback = "JObj [(''Formatter'', JObj [(''analysisResult'', JStr ''R'')])]"
  let ?rest = "[Yield (agent_event ''Formatter'' ''Q2'')]"
  have h: "first_key ?event = Inr (Some ''Formatter'')"
    by code_simp
  have h': "first_key ?fallback = Inr (Some ''Formatter'')"
    by code_simp
  have f: "\<not> truthy (get_prop (elem0 (get_prop (get_prop ?fallback ''Formatter'') ''messages''))
      ''content'')"
    by code_simp
  note r = extract_content_cases [of ?event new_writer ?rest]
  note r' = extract_content_cases [of ?fallback new_writer ?rest]
  have v: "(if truthy (get_prop (elem0 (get_prop (get_prop ?event ''Formatter'') ''messages'')) ''content'')
      then
        (if truthy (get_prop (get_prop ?event ''Formatter'') ''analysisResult'')
         then get_prop (get_prop ?event ''Formatter'') ''analysisResult''
         else get_prop (elem0 (get_prop (get_prop ?event ''Formatter'') ''messages'')) ''content'')
      else JStr (stringify ?event)) = JStr ''R''"
    by code_simp
  from r have x: "extract_content ''Formatter'' ?event = JStr ''R''"
    unfolding v by (rule conjunct1)
  have c: \<open>[case clean_content (extract_content ''Formatter'' ?event) of
             Inl error \<Rightarrow> error_event error
           | Inr cleanContent \<Rightarrow>
               if isJsonContent cleanContent then error_chunk busy_message
               else markdown_chunk cleanContent] =
      [''data: {"type":"markdown","content":"R","isMarkdown":true}\<newline>\<newline>'']\<close>
    by code_simp
  from r have "first_key ?event = Inr (Some ''Formatter'') \<longrightarrow>
      take (Suc (length (chunks new_writer))) (chunks (relay (Yield ?event # ?rest) new_writer)) =
        chunks new_writer @
          [case clean_content (extract_content ''Formatter'' ?event) of
             Inl error \<Rightarrow> error_event error
           | Inr cleanContent \<Rightarrow>
               if isJsonContent cleanContent then error_chunk busy_message
               else markdown_chunk cleanContent]"
    by (rule conjunct1 [OF conjunct2])
  then have t: \<open>take (Suc (length (chunks new_writer)))
      (chunks (relay (Yield ?event # ?rest) new_writer)) =
        chunks new_writer @ [''data: {"type":"markdown","content":"R","isMarkdown":true}\<newline>\<newline>'']\<close>
    using h unfolding c by (rule mp)
  have lit: \<open>new_writer\<lparr>chunks := chunks new_writer @ [error_chunk busy_message, complete_marker],
        closed := True\<rparr> =
      \<lparr>chunks = [''data: {"type":"error","content":"server is busy currently try again later"}\<newline>\<newline>'',
                 ''event: complete\<newline>data: done\<newline>\<newline>''],
       closed = True\<rparr>\<close>
    by code_simp
  from r' have "first_key ?fallback = Inr (Some ''Formatter'') \<longrightarrow>
      \<not> truthy (get_prop (elem0 (get_prop (get_prop ?fallback ''Formatter'') ''messages'')) ''content'') \<longrightarrow>
      relay (Yield ?fallback # ?rest) new_writer =
        new_writer\<lparr>chunks := chunks new_writer @ [error_chunk busy_message, complete_marker],
          closed := True\<rparr>"
    by (rule conjunct2 [OF conjunct2])
  then have b: \<open>relay (Yield ?fallback # ?rest) new_writer =
      \<lparr>chunks = [''data: {"type":"error","content":"server is busy currently try again later"}\<newline>\<newline>'',
                 ''event: complete\<newline>data: done\<newline>\<newline>''],
       closed = True\<rparr>\<close>
    using h' f unfolding lit by blast
  from h x t h' f b show ?thesis by (intro conjI)
qed

section \<open>Properties of the upload endpoint\<close>

lemma digits_are_digits: "digits n \<noteq> [] \<and> (\<forall>c \<in> set (digits n). is_digit c)"
proof (induction n rule: digits.induct)
  case (1 n)
  have d: "is_digit (''0123456789'' ! k)" if "k < 10" for k
  proof -
    from that have "''0123456789'' ! k \<in> set ''0123456789''"
      by (intro nth_mem) simp
    then show ?thesis by (simp only: is_digit_def)
  qed
  show ?case
  proof (cases "n < 10")
    case True
    then show ?thesis using d [of n] by (subst digits.simps, subst (2) digits.simps) simp
  next
    case False
    with 1 have ih: "digits (n div 10) \<noteq> [] \<and> (\<forall>c \<in> set (digits (n div 10)). is_digit c)"
      by simp
    have "n mod 10 < 10" by simp
    from d [OF this] ih False show ?thesis
      by (subst digits.simps, subst (2) digits.simps) simp
  qed
qed

lemma digits_then_pdf: "matches_digits_pdf (digits n @ ''.pdf'')"
proof -
  have nd: "\<not> is_digit CHR ''.''" by (simp add: is_digit_def)
  have all: "\<forall>c \<in> set (digits n). is_digit c" and ne: "digits n \<noteq> []"
    using digits_are_digits [of n] by simp_all
  from all have t: "takeWhile is_digit (digits n @ ''.pdf'') = digits n"
    using nd by (simp add: takeWhile_append2)
  from all have dr: "dropWhile is_digit (digits n @ ''.pdf'') = ''.pdf''"
    using nd by (simp add: dropWhile_append2)
  from t dr ne show ?thesis by (simp add: matches_digits_pdf_def)
qed

lemma store_files_names:
  "fst (store_files pf extname clock i entries acc d) =
     acc @ map (\<lambda>(j, name). digits (clock j) @ extname name) (enumerate i (stored_names entries))"
proof (induction entries arbitrary: i acc d)
  case Nil
  show ?case by simp
next
  case (Cons entry entries)
  obtain key v where e: "entry = (key, v)" by (cases entry)
  show ?case
  proof (cases v)
    case (File_value name buffer)
    with e Cons.IH show ?thesis by (simp add: Let_def)
  next
    case (Text_value str)
    with e Cons.IH show ?thesis by simp
  qed
qed

text \<open>
  Claim C8. The names the upload endpoint returns are, for the stored files in order, the
  decimal milliseconds of \<^verbatim>\<open>Date.now()\<close> at the moment the file is stored followed by the
  extension \<^verbatim>\<open>path.extname\<close> finds in the original name; when that extension is
  \<^verbatim>\<open>.pdf\<close> the returned name matches \<^verbatim>\<open>^\d+\.pdf$\<close>.
\<close>

theorem upload_filenames:
  "fst (POST pf extname clock (Inr entries) d) =
     Json_response 200
       (JObj [(''message'', JStr ''success''),
              (''uploadedFiles'', JArr (map JStr
                 (map (\<lambda>(i, name). digits (clock i) @ extname name)
                    (enumerate 0 (stored_names entries)))))]) \<and>
   (\<forall>(i, name) \<in> set (enumerate 0 (stored_names entries)).
      extname name = ''.pdf'' \<longrightarrow> matches_digits_pdf (digits (clock i) @ extname name))"
proof
  show "fst (POST pf extname clock (Inr entries) d) =
     Json_response 200
       (JObj [(''message'', JStr ''success''),
              (''uploadedFiles'', JArr (map JStr
                 (map (\<lambda>(i, name). digits (clock i) @ extname name)
                    (enumerate 0 (stored_names entries)))))])"
    using store_files_names [of pf extname clock 0 entries "[]" d]
    by (cases "store_files pf extname clock 0 entries [] d") (simp add: POST_def)
next
  show "\<forall>(i, name) \<in> set (enumerate 0 (stored_names entries)).
      extname name = ''.pdf'' \<longrightarrow> matches_digits_pdf (digits (clock i) @ extname name)"
    using digits_then_pdf by auto
qed

theorem upload_filenames_witness:
  "fst (POST example_platform (dropWhile (\<lambda>c. c \<noteq> CHR ''.'')) (\<lambda>i. 1700000000000 + i)
          (Inr [(''file-0'', File_value ''report.pdf'' ''%PDF''), (''note'', Text_value ''hello''),
                (''file-1'', File_value ''notes.txt'' ''abc'')])
          Map.empty) =
     Json_response 200
       (JObj [(''message'', JStr ''success''),
              (''uploadedFiles'', JArr [JStr ''1700000000000.pdf'', JStr ''1700000000001.txt''])]) \<and>
   dropWhile (\<lambda>c. c \<noteq> CHR ''.'') ''report.pdf'' = ''.pdf'' \<and>
   matches_digits_pdf ''1700000000000.pdf''"
  using upload_filenames [of example_platform "dropWhile (\<lambda>c. c \<noteq> CHR ''.'')"
      "\<lambda>i. 1700000000000 + i"
      "[(''file-0'', File_value ''report.pdf'' ''%PDF''), (''note'', Text_value ''hello''),
        (''file-1'', File_value ''notes.txt'' ''abc'')]" Map.empty]
  by (simp add: digits.simps)

section \<open>Properties of the generation endpoint\<close>

lemma missing_parameters_body_cong:
  "\<forall>name. falsy (p name) = falsy (q name) \<Longrightarrow> model_name p = model_name q
     \<Longrightarrow> missing_parameters_body p = missing_parameters_body q"
  by (simp add: missing_parameters_body_def)

lemma trim_empty_iff: "trim s = [] \<longleftrightarrow> (\<forall>c \<in> set s. is_space c)"
proof -
  have "trim s = [] \<longleftrightarrow> (\<forall>c \<in> set (dropWhile is_space s). is_space c)"
    by (simp add: trim_def dropWhile_eq_Nil_conv)
  also have "\<dots> \<longleftrightarrow> dropWhile is_space s = []"
  proof
    assume a: "\<forall>c \<in> set (dropWhile is_space s). is_space c"
    show "dropWhile is_space s = []"
    proof (rule ccontr)
      assume ne: "dropWhile is_space s \<noteq> []"
      then have "\<not> is_space (hd (dropWhile is_space s))" by (rule hd_dropWhile)
      moreover from ne have "hd (dropWhile is_space s) \<in> set (dropWhile is_space s)" by simp
      ultimately show False using a by blast
    qed
  next
    assume h: "dropWhile is_space s = []"
    show "\<forall>c \<in> set (dropWhile is_space s). is_space c" unfolding h by simp
  qed
  also have "\<dots> \<longleftrightarrow> (\<forall>c \<in> set s. is_space c)"
    by (simp add: dropWhile_eq_Nil_conv)
  finally show ?thesis .
qed

lemma parse_uploaded_files_filter:
  "parse_uploaded_files (Some p) =
     filter (\<lambda>segment. \<exists>c \<in> set segment. \<not> is_space c) (split CHR '','' p)"
proof (cases "p = []")
  case True
  then show ?thesis by (simp add: parse_uploaded_files_def falsy_def)
next
  case False
  then show ?thesis by (simp add: parse_uploaded_files_def falsy_def trim_empty_iff)
qed

text \<open>
  Claim C4. When one of \<^verbatim>\<open>questionHeader\<close>, \<^verbatim>\<open>questionDescription\<close>, \<^verbatim>\<open>apiKey\<close> is
  missing (absent from the query, or empty, which the handler does not tell apart), the
  answer has status 400, the file system is untouched, and the parameters that the
  body flags as not received are exactly the missing ones among the three.
\<close>

theorem missing_parameters_400:
  assumes "falsy (searchParams ''questionHeader'') \<or> falsy (searchParams ''questionDescription'')
             \<or> falsy (searchParams ''apiKey'')"
  shows "GET pf generateQuestions d searchParams =
           (Json_response 400 (missing_parameters_body searchParams), d) \<and>
         not_received (missing_parameters_body searchParams) =
           filter (\<lambda>name. falsy (searchParams name))
             [''questionHeader'', ''questionDescription'', ''apiKey'']"
proof
  from assms show "GET pf generateQuestions d searchParams =
           (Json_response 400 (missing_parameters_body searchParams), d)"
    by (simp add: GET_def validate_def)
next
  have m: "model_name searchParams \<noteq> []"
    by (cases "searchParams ''modelName''") (auto simp: model_name_def falsy_def)
  show "not_received (missing_parameters_body searchParams) =
           filter (\<lambda>name. falsy (searchParams name))
             [''questionHeader'', ''questionDescription'', ''apiKey'']"
    using m by (simp add: not_received_def missing_parameters_body_def)
qed

theorem missing_parameters_400_witness:
  "falsy ([''questionDescription'' \<mapsto> ''D''] ''questionHeader'') \<and>
   GET example_platform (\<lambda>request d. Inr None) Map.empty [''questionDescription'' \<mapsto> ''D''] =
     (Json_response 400 (missing_parameters_body [''questionDescription'' \<mapsto> ''D'']), Map.empty) \<and>
   not_received (missing_parameters_body [''questionDescription'' \<mapsto> ''D'']) =
     [''questionHeader'', ''apiKey'']"
proof -
  let ?sp = "[''questionDescription'' \<mapsto> ''D'']"
  have h: "falsy (?sp ''questionHeader'')"
    by (simp add: falsy_def)
  then have "falsy (?sp ''questionHeader'') \<or> falsy (?sp ''questionDescription'') \<or>
      falsy (?sp ''apiKey'')"
    by (rule disjI1)
  note r = missing_parameters_400 [OF this, of example_platform "\<lambda>request d. Inr None" Map.empty]
  from r have g: "GET example_platform (\<lambda>request d. Inr None) Map.empty ?sp =
     (Json_response 400 (missing_parameters_body ?sp), Map.empty)"
    by (rule conjunct1)
  from r have "not_received (missing_parameters_body ?sp) =
      filter (\<lambda>name. falsy (?sp name)) [''questionHeader'', ''questionDescription'', ''apiKey'']"
    by (rule conjunct2)
  also have "\<dots> = [''questionHeader'', ''apiKey'']"
    by (simp add: falsy_def)
  finally have n: "not_received (missing_parameters_body ?sp) = [''questionHeader'', ''apiKey'']" .
  from h g n show ?thesis by (intro conjI)
qed

text \<open>
  Claim C9. A required parameter that is present with the empty string as its value is
  answered exactly as if it were absent: the same response and file system, which
  is the answer 400 of the missing-parameter branch.
\<close>

theorem empty_parameter_as_absent:
  "GET pf generateQuestions d (searchParams(''questionHeader'' \<mapsto> [])) =
     GET pf generateQuestions d (searchParams(''questionHeader'' := None)) \<and>
   GET pf generateQuestions d (searchParams(''questionDescription'' \<mapsto> [])) =
     GET pf generateQuestions d (searchParams(''questionDescription'' := None)) \<and>
   GET pf generateQuestions d (searchParams(''apiKey'' \<mapsto> [])) =
     GET pf generateQuestions d (searchParams(''apiKey'' := None)) \<and>
   fst (GET pf generateQuestions d (searchParams(''questionHeader'' \<mapsto> []))) =
     Json_response 400 (missing_parameters_body (searchParams(''questionHeader'' := None))) \<and>
   fst (GET pf generateQuestions d (searchParams(''questionDescription'' \<mapsto> []))) =
     Json_response 400 (missing_parameters_body (searchParams(''questionDescription'' := None))) \<and>
   fst (GET pf generateQuestions d (searchParams(''apiKey'' \<mapsto> []))) =
     Json_response 400 (missing_parameters_body (searchParams(''apiKey'' := None)))"
proof -
  have b: "missing_parameters_body (searchParams(name \<mapsto> [])) =
           missing_parameters_body (searchParams(name := None))"
    if "name \<noteq> ''modelName''" for name
    using that by (intro missing_parameters_body_cong) (auto simp: falsy_def model_name_def)
  have g: "GET pf generateQuestions d (searchParams(name \<mapsto> [])) =
             (Json_response 400 (missing_parameters_body (searchParams(name := None))), d) \<and>
           GET pf generateQuestions d (searchParams(name := None)) =
             (Json_response 400 (missing_parameters_body (searchParams(name := None))), d)"
    if "name \<in> {''questionHeader'', ''questionDescription'', ''apiKey''}" for name
  proof -
    from that have n: "name \<noteq> ''modelName''" by auto
    from that show ?thesis
      using b [OF n] by (auto simp: GET_def validate_def falsy_def)
  qed
  from g [of "''questionHeader''"] g [of "''questionDescription''"] g [of "''apiKey''"]
  show ?thesis by simp
qed

theorem empty_parameter_as_absent_witness:
  "GET example_platform (\<lambda>request d. Inr None) Map.empty
       ([''questionHeader'' \<mapsto> ''H'', ''questionDescription'' \<mapsto> ''D'', ''apiKey'' \<mapsto> ''K'']
          (''apiKey'' \<mapsto> [])) =
     GET example_platform (\<lambda>request d. Inr None) Map.empty
       ([''questionHeader'' \<mapsto> ''H'', ''questionDescription'' \<mapsto> ''D'', ''apiKey'' \<mapsto> ''K'']
          (''apiKey'' := None)) \<and>
   not_received (case fst (GET example_platform (\<lambda>request d. Inr None) Map.empty
       ([''questionHeader'' \<mapsto> ''H'', ''questionDescription'' \<mapsto> ''D'', ''apiKey'' \<mapsto> ''K'']
          (''apiKey'' \<mapsto> []))) of Json_response status body \<Rightarrow> body | _ \<Rightarrow> JNull) = [''apiKey'']"
proof -
  let ?sp = "[''questionHeader'' \<mapsto> ''H'', ''questionDescription'' \<mapsto> ''D'', ''apiKey'' \<mapsto> ''K'']"
  let ?g = "\<lambda>(request :: generation_request) (d :: disk).
              (Inr None :: thrown + upstream_item list option)"
  note r = empty_parameter_as_absent [of example_platform ?g Map.empty ?sp]
  from r have a: "GET example_platform ?g Map.empty (?sp(''apiKey'' \<mapsto> [])) =
     GET example_platform ?g Map.empty (?sp(''apiKey'' := None))"
    by (rule conjunct1 [OF conjunct2 [OF conjunct2]])
  from r have "fst (GET example_platform ?g Map.empty (?sp(''apiKey'' \<mapsto> []))) =
     Json_response 400 (missing_parameters_body (?sp(''apiKey'' := None)))"
    by (rule conjunct2 [OF conjunct2 [OF conjunct2 [OF conjunct2 [OF conjunct2]]]])
  then have b: "not_received (case fst (GET example_platform ?g Map.empty (?sp(''apiKey'' \<mapsto> [])))
        of Json_response status body \<Rightarrow> body | _ \<Rightarrow> JNull) = [''apiKey'']"
    by (simp add: missing_parameters_body_def not_received_def falsy_def model_name_def)
  from a b show ?thesis by (intro conjI)
qed



text \<open>
  Claim C10. The segments of the \<^verbatim>\<open>uploadedFiles\<close> parameter between commas are kept
  when they hold a character that is not white space and dropped otherwise; a kept segment
  is not trimmed: the existence check and the request to the generation service get the
  segment with its leading and trailing white space.
\<close>

theorem uploaded_files_untrimmed:
  "parse_uploaded_files (Some p) =
     filter (\<lambda>segment. \<exists>c \<in> set segment. \<not> is_space c) (split CHR '','' p) \<and>
   (searchParams ''uploadedFiles'' = Some p \<longrightarrow> validate pf d searchParams = Inr request \<longrightarrow>
      uploadedFiles request =
        filter (\<lambda>file. existsSync pf d (path_join pf (path_join pf (cwd pf) ''temp'') file))
          (filter (\<lambda>segment. \<exists>c \<in> set segment. \<not> is_space c) (split CHR '','' p)))"
proof (intro conjI impI)
  show "parse_uploaded_files (Some p) =
     filter (\<lambda>segment. \<exists>c \<in> set segment. \<not> is_space c) (split CHR '','' p)"
    by (rule parse_uploaded_files_filter)
next
  assume p: "searchParams ''uploadedFiles'' = Some p"
    and v: "validate pf d searchParams = Inr request"
  let ?declared = "parse_uploaded_files (Some p)"
  from v p have "uploadedFiles request = filter (\<lambda>file. existsSync pf d (path_join pf (path_join pf (cwd pf) ''temp'') file)) ?declared"
    by (auto simp: validate_def make_request_def Let_def split: if_splits)
  then show "uploadedFiles request =
        filter (\<lambda>file. existsSync pf d (path_join pf (path_join pf (cwd pf) ''temp'') file))
          (filter (\<lambda>segment. \<exists>c \<in> set segment. \<not> is_space c) (split CHR '','' p))"
    by (simp only: parse_uploaded_files_filter)
qed

theorem uploaded_files_untrimmed_witness:
  "parse_uploaded_files (Some '' a.txt , ,b.txt,'') = ['' a.txt '', ''b.txt''] \<and>
   [''questionHeader'' \<mapsto> ''H'', ''questionDescription'' \<mapsto> ''D'', ''apiKey'' \<mapsto> ''K'',
    ''uploadedFiles'' \<mapsto> '' a.txt , ,b.txt,''] ''uploadedFiles'' = Some '' a.txt , ,b.txt,'' \<and>
   validate example_platform [''/app/temp/ a.txt '' \<mapsto> ''xyz'', ''/app/temp/b.txt '' \<mapsto> ''uvw'']
     [''questionHeader'' \<mapsto> ''H'', ''questionDescription'' \<mapsto> ''D'', ''apiKey'' \<mapsto> ''K'',
      ''uploadedFiles'' \<mapsto> '' a.txt , ,b.txt,''] =
     Inr \<lparr>questionHeader = ''H'', questionDescription = ''D'', apiKey = ''K'',
          uploadedFiles = ['' a.txt ''], modelName = ''qwen/qwq-32b:free''\<rparr> \<and>
   filter (\<lambda>file. existsSync example_platform
                    [''/app/temp/ a.txt '' \<mapsto> ''xyz'', ''/app/temp/b.txt '' \<mapsto> ''uvw'']
                    (path_join example_platform
                       (path_join example_platform (cwd example_platform) ''temp'') file))
     (parse_uploaded_files (Some '' a.txt , ,b.txt,'')) = ['' a.txt '']"
proof -
  let ?sp = "[''questionHeader'' \<mapsto> ''H'', ''questionDescription'' \<mapsto> ''D'', ''apiKey'' \<mapsto> ''K'',
      ''uploadedFiles'' \<mapsto> '' a.txt , ,b.txt,'']"
  let ?d = "[''/app/temp/ a.txt '' \<mapsto> ''xyz'', ''/app/temp/b.txt '' \<mapsto> ''uvw'']"
  let ?pf = example_platform
  let ?request = "\<lparr>questionHeader = ''H'', questionDescription = ''D'', apiKey = ''K'',
          uploadedFiles = ['' a.txt ''], modelName = ''qwen/qwq-32b:free''\<rparr>"
  let ?exists = "\<lambda>file. existsSync ?pf ?d (path_join ?pf (path_join ?pf (cwd ?pf) ''temp'') file)"
  have p: "parse_uploaded_files (Some '' a.txt , ,b.txt,'') = ['' a.txt '', ''b.txt'']"
    by (simp add: parse_uploaded_files_def falsy_def trim_def is_space_def)
  have s: "?sp ''uploadedFiles'' = Some '' a.txt , ,b.txt,''"
    by simp
  have v: "validate ?pf ?d ?sp = Inr ?request"
    by (simp add: validate_def falsy_def p make_request_def model_name_def example_platform_def)
  note r = uploaded_files_untrimmed [of "'' a.txt , ,b.txt,''" ?sp ?pf ?d ?request]
  from r have "?sp ''uploadedFiles'' = Some '' a.txt , ,b.txt,'' \<longrightarrow> validate ?pf ?d ?sp = Inr ?request \<longrightarrow>
      uploadedFiles ?request =
        filter ?exists
          (filter (\<lambda>segment. \<exists>c \<in> set segment. \<not> is_space c) (split CHR '','' '' a.txt , ,b.txt,''))"
    by (rule conjunct2)
  then have "uploadedFiles ?request =
        filter ?exists
          (filter (\<lambda>segment. \<exists>c \<in> set segment. \<not> is_space c) (split CHR '','' '' a.txt , ,b.txt,''))"
    using s v by blast
  moreover from r have "parse_uploaded_files (Some '' a.txt , ,b.txt,'') =
      filter (\<lambda>segment. \<exists>c \<in> set segment. \<not> is_space c) (split CHR '','' '' a.txt , ,b.txt,'')"
    by (rule conjunct1)
  ultimately have "uploadedFiles ?request =
      filter ?exists (parse_uploaded_files (Some '' a.txt , ,b.txt,''))"
    by (simp only:)
  then have u: "filter ?exists (parse_uploaded_files (Some '' a.txt , ,b.txt,'')) = ['' a.txt '']"
    by simp
  from p s v u show ?thesis by (intro conjI)
qed

end
